theory Spec2Isabelle
  imports Main "HOL-Library.Word" "HOL-Library.Sublist"
begin

section \<open>JavaScript strings\<close>

text \<open>
  A JavaScript string is a sequence of 16-bit code units. \<open>lit\<close> writes a literal of
  the source whose characters lie in U+0000..U+00FF: an Isabelle character with code
  \<open>n\<close> stands for the code unit \<open>n\<close>.
\<close>

type_synonym jschar = "16 word"
type_synonym jsstring = "jschar list"

definition lit :: "string \<Rightarrow> jsstring" where
  "lit s = map of_char s"

text \<open>
  \<^verbatim>\<open>String.prototype.toLowerCase\<close> maps the string code point by code point with
  the Unicode default lower-case mapping. A code unit in U+0000..U+00FF is a code
  point of its own, and its mapping does not depend on what stands around it: A..Z
  and the capital letters U+00C0..U+00DE (U+00D7, the multiplication sign, is no
  letter) move up by 32 and everything else stays. What a code unit above U+00FF
  contributes comes from the Unicode tables, which are no part of the repository:
  it is the parameter \<open>unicodeLower\<close>, applied to the units before it, the unit and
  the units after it (for a surrogate pair, the pair's mapping at its first unit and
  nothing at its second). Nothing is assumed about the parameter.
\<close>

type_synonym unicode_lower = "jsstring \<Rightarrow> jschar \<Rightarrow> jsstring \<Rightarrow> jsstring"

definition latin1 :: "jschar \<Rightarrow> bool" where
  "latin1 c = (c \<le> 0xFF)"

definition lower_latin1 :: "jschar \<Rightarrow> jschar" where
  "lower_latin1 c =
     (if (0x41 \<le> c \<and> c \<le> 0x5A) \<or> (0xC0 \<le> c \<and> c \<le> 0xDE \<and> c \<noteq> 0xD7)
      then c + 0x20 else c)"

fun lower_units :: "unicode_lower \<Rightarrow> jsstring \<Rightarrow> jsstring \<Rightarrow> jsstring" where
  "lower_units unicodeLower before [] = []"
| "lower_units unicodeLower before (c # cs) =
     (if latin1 c then [lower_latin1 c] else unicodeLower before c cs)
     @ lower_units unicodeLower (before @ [c]) cs"

definition toLowerCase :: "unicode_lower \<Rightarrow> jsstring \<Rightarrow> jsstring" where
  "toLowerCase unicodeLower s = lower_units unicodeLower [] s"

text \<open>
  \<^verbatim>\<open>String.prototype.includes\<close>: does \<open>k\<close> occur in \<open>s\<close> as a contiguous run of
  code units, at any position.
\<close>

fun includes_js :: "jsstring \<Rightarrow> jsstring \<Rightarrow> bool" where
  "includes_js [] k = (k = [])"
| "includes_js (c # cs) k = (prefix k (c # cs) \<or> includes_js cs k)"

text \<open>
  \<^verbatim>\<open>String.prototype.trim\<close> removes white space and line terminators from both ends.
  The set is the one of ECMAScript: TAB, LF, VT, FF, CR, SP, NBSP, the Unicode space
  separators, LS, PS and the byte order mark.
\<close>

definition isWhiteSpace :: "jschar \<Rightarrow> bool" where
  "isWhiteSpace c =
     ((0x09 \<le> c \<and> c \<le> 0x0D) \<or> c = 0x20 \<or> c = 0xA0 \<or> c = 0x1680
      \<or> (0x2000 \<le> c \<and> c \<le> 0x200A) \<or> c = 0x2028 \<or> c = 0x2029 \<or> c = 0x202F
      \<or> c = 0x205F \<or> c = 0x3000 \<or> c = 0xFEFF)"

definition trimStart :: "jsstring \<Rightarrow> jsstring" where
  "trimStart s = dropWhile isWhiteSpace s"

definition trimEnd :: "jsstring \<Rightarrow> jsstring" where
  "trimEnd s = rev (dropWhile isWhiteSpace (rev s))"

definition trim :: "jsstring \<Rightarrow> jsstring" where
  "trim s = trimEnd (trimStart s)"

section \<open>The theme resolver\<close>

record ThemeCopy =
  submitTitle :: jsstring
  inputLabel :: jsstring
  placeholder :: jsstring
  individualTips :: jsstring
  teamTips :: jsstring

text \<open>
  The three tips of a theme are one string literal in the source: each line starts
  with a bullet (U+2022) and a space, and the lines are separated by a line feed.
\<close>

definition tips :: "string \<Rightarrow> string \<Rightarrow> string \<Rightarrow> jsstring" where
  "tips a b c =
     0x2022 # 0x20 # lit a @ 0x0A # 0x2022 # 0x20 # lit b @ 0x0A # 0x2022 # 0x20 # lit c"

definition peaceTheme :: ThemeCopy where
  "peaceTheme = \<lparr>
     submitTitle = lit ''Share Your Peaceful Moment'',
     inputLabel = lit ''Describe your peaceful experience'',
     placeholder = lit ''Tell the community about your peaceful moment... How did it make you feel?'',
     individualTips = tips ''Share what brought you inner peace''
       ''Describe the emotions you felt'' ''Inspire others to find their own calm'',
     teamTips = tips ''Share how your team found peace together''
       ''Describe your collective experience'' ''Inspire other groups to find harmony'' \<rparr>"

definition adventureTheme :: ThemeCopy where
  "adventureTheme = \<lparr>
     submitTitle = lit ''Share Your Adventure'',
     inputLabel = lit ''Tell us about your adventure'',
     placeholder = lit ''Share your exciting adventure... What made it memorable?'',
     individualTips = tips ''Describe the highlights of your journey''
       ''Share what you discovered about yourself'' ''Inspire others to explore new horizons'',
     teamTips = tips ''Share how your team conquered the adventure''
       ''Describe your teamwork moments'' ''Inspire other groups to explore together'' \<rparr>"

definition gratitudeTheme :: ThemeCopy where
  "gratitudeTheme = \<lparr>
     submitTitle = lit ''Share What You'' @ 0x27 # lit ''re Grateful For'',
     inputLabel = lit ''Express your gratitude'',
     placeholder = lit ''Share what filled your heart with gratitude today...'',
     individualTips = tips ''Reflect on what truly matters to you''
       ''Share specific moments of appreciation''
       ''Inspire others to find gratitude in their lives'',
     teamTips = tips ''Share what your team is collectively grateful for''
       ''Describe moments of shared appreciation''
       ''Inspire other groups to practice gratitude together'' \<rparr>"

definition creativeTheme :: ThemeCopy where
  "creativeTheme = \<lparr>
     submitTitle = lit ''Share Your Creative Expression'',
     inputLabel = lit ''Describe your creative process'',
     placeholder = lit ''Tell us about your creative journey... What inspired you?'',
     individualTips = tips ''Share your creative inspiration''
       ''Describe your artistic process'' ''Inspire others to express their creativity'',
     teamTips = tips ''Share how your team created together''
       ''Describe your collaborative process'' ''Inspire other groups to create as one'' \<rparr>"

definition fitnessTheme :: ThemeCopy where
  "fitnessTheme = \<lparr>
     submitTitle = lit ''Share Your Wellness Journey'',
     inputLabel = lit ''Describe your wellness experience'',
     placeholder = lit ''Tell us about your wellness moment... How did it energize you?'',
     individualTips = tips ''Share how this boosted your wellbeing''
       ''Describe the energy you gained'' ''Inspire others to prioritize their health'',
     teamTips = tips ''Share how your team motivated each other''
       ''Describe your collective energy'' ''Inspire other groups to get active together'' \<rparr>"

definition genericTheme :: ThemeCopy where
  "genericTheme = \<lparr>
     submitTitle = lit ''Share Your Experience'',
     inputLabel = lit ''Tell us about your experience'',
     placeholder = lit ''Share your meaningful moment with the community...'',
     individualTips = tips ''Share what made this moment special''
       ''Describe how it impacted you'' ''Inspire others to try this challenge'',
     teamTips = tips ''Share how your team experienced this together''
       ''Describe your collective journey'' ''Inspire other groups to join the challenge'' \<rparr>"

text \<open>
  \<^verbatim>\<open>getChallengeTheme\<close>, the chain of conditionals of the source in its order. The
  argument has the type \<^verbatim>\<open>string\<close> there.
\<close>

definition getChallengeTheme :: "unicode_lower \<Rightarrow> jsstring \<Rightarrow> ThemeCopy" where
  "getChallengeTheme unicodeLower challengeTitle =
     (let title = toLowerCase unicodeLower challengeTitle in
      if includes_js title (lit ''peace'') \<or> includes_js title (lit ''meditation'')
         \<or> includes_js title (lit ''mindful'') then peaceTheme
      else if includes_js title (lit ''adventure'') \<or> includes_js title (lit ''explore'')
         \<or> includes_js title (lit ''journey'') then adventureTheme
      else if includes_js title (lit ''gratitude'') \<or> includes_js title (lit ''thankful'')
         \<or> includes_js title (lit ''appreciate'') then gratitudeTheme
      else if includes_js title (lit ''creative'') \<or> includes_js title (lit ''art'')
         \<or> includes_js title (lit ''create'') then creativeTheme
      else if includes_js title (lit ''fitness'') \<or> includes_js title (lit ''workout'')
         \<or> includes_js title (lit ''health'') then fitnessTheme
      else genericTheme)"

text \<open>
  TypeScript checks the argument's type at compile time only. A call that passes
  \<^verbatim>\<open>null\<close> at run time reaches \<^verbatim>\<open>challengeTitle.toLowerCase()\<close>, and reading a
  property of \<^verbatim>\<open>null\<close> throws a \<^verbatim>\<open>TypeError\<close>. \<open>None\<close> is \<^verbatim>\<open>null\<close>.
\<close>

datatype js_error = TypeError

definition getChallengeTheme_rt ::
  "unicode_lower \<Rightarrow> jsstring option \<Rightarrow> js_error + ThemeCopy" where
  "getChallengeTheme_rt unicodeLower v =
     (case v of None \<Rightarrow> Inl TypeError
      | Some challengeTitle \<Rightarrow> Inr (getChallengeTheme unicodeLower challengeTitle))"

text \<open>
  The table of section 4.1 of the specification: five keyword groups in their
  priority order, each with its theme.
\<close>

datatype theme_group = Peace | Adventure | Gratitude | Creative | Fitness

fun group_keywords :: "theme_group \<Rightarrow> jsstring list" where
  "group_keywords Peace = [lit ''peace'', lit ''meditation'', lit ''mindful'']"
| "group_keywords Adventure = [lit ''adventure'', lit ''explore'', lit ''journey'']"
| "group_keywords Gratitude = [lit ''gratitude'', lit ''thankful'', lit ''appreciate'']"
| "group_keywords Creative = [lit ''creative'', lit ''art'', lit ''create'']"
| "group_keywords Fitness = [lit ''fitness'', lit ''workout'', lit ''health'']"

fun group_theme :: "theme_group \<Rightarrow> ThemeCopy" where
  "group_theme Peace = peaceTheme"
| "group_theme Adventure = adventureTheme"
| "group_theme Gratitude = gratitudeTheme"
| "group_theme Creative = creativeTheme"
| "group_theme Fitness = fitnessTheme"

fun group_rank :: "theme_group \<Rightarrow> nat" where
  "group_rank Peace = 1"
| "group_rank Adventure = 2"
| "group_rank Gratitude = 3"
| "group_rank Creative = 4"
| "group_rank Fitness = 5"

text \<open>
  A keyword of the group appears in the title, case-insensitively, at any position:
  it occurs in the lower-cased title (the keywords are lower-case themselves).
\<close>

definition group_matches :: "unicode_lower \<Rightarrow> jsstring \<Rightarrow> theme_group \<Rightarrow> bool" where
  "group_matches unicodeLower t g =
     list_ex (includes_js (toLowerCase unicodeLower t)) (group_keywords g)"

section \<open>The submission record\<close>

text \<open>
  Modelled from the spec: the type \<^verbatim>\<open>ChallengeCard\<close> is imported from
  \<^verbatim>\<open>types/challenge\<close>, which is not among the sources. Section 3 gives its fields:
  identifier, title, subtitle, icon string and a pair of gradient colours. The screen
  reads them as \<^verbatim>\<open>id\<close>, \<^verbatim>\<open>title\<close>, \<^verbatim>\<open>subtitle\<close>, \<^verbatim>\<open>image\<close> and \<^verbatim>\<open>gradient\<close>; the
  identifier is a \<^verbatim>\<open>number\<close>, since it is stored in \<^verbatim>\<open>challengeId: number\<close>.
\<close>

record ChallengeCard =
  card_id :: int
  card_title :: jsstring
  card_subtitle :: jsstring
  card_image :: jsstring
  card_gradient :: "jsstring list"

datatype participation = Individual | Team

record Author =
  author_name :: jsstring
  author_avatar :: jsstring
  author_username :: jsstring

text \<open>
  \<^verbatim>\<open>interface ChallengeSubmission\<close>. The optional \<^verbatim>\<open>image\<close> is \<open>None\<close> when it is
  \<^verbatim>\<open>undefined\<close>; the \<^verbatim>\<open>Date\<close> is its time value, in milliseconds since the epoch.
\<close>

record ChallengeSubmission =
  sub_id :: jsstring
  challengeId :: int
  challengeTitle :: jsstring
  challengeIcon :: jsstring
  sub_text :: jsstring
  sub_image :: "jsstring option"
  timestamp :: int
  author :: Author
  likes :: int
  comments :: int
  shares :: int
  participationType :: participation

text \<open>
  \<^verbatim>\<open>Number.prototype.toString\<close> on an integer: its decimal digits, with a minus sign
  when negative. (JavaScript switches to exponent notation from \<open>10\<^sup>2\<^sup>1\<close> on; a time
  value stays below \<open>8.64 * 10\<^sup>1\<^sup>5\<close> in magnitude.)
\<close>

definition digit_char :: "nat \<Rightarrow> jschar" where
  "digit_char d = 0x30 + of_nat d"

fun nat_digits :: "nat \<Rightarrow> jsstring" where
  "nat_digits n =
     (if n < 10 then [digit_char n] else nat_digits (n div 10) @ [digit_char (n mod 10)])"

declare nat_digits.simps [simp del]

definition Number_toString :: "int \<Rightarrow> jsstring" where
  "Number_toString i = (if i < 0 then 0x2D # nat_digits (nat (- i)) else nat_digits (nat i))"

section \<open>The screen\<close>

text \<open>
  The state of one screen instance: the three \<^verbatim>\<open>useState\<close> cells, and a log of what
  the screen has done to the outside: how often it has read the wall clock, the alerts
  it has shown (title and message, oldest first), the records it has passed to
  \<^verbatim>\<open>onSubmit\<close> and the number of its calls of \<^verbatim>\<open>onClose\<close>.
\<close>

record screen =
  draft_text :: jsstring
  selectedImage :: "jsstring option"
  isSubmitting :: bool
  clock_reads :: nat
  alerts :: "(jsstring \<times> jsstring) list"
  onSubmit_calls :: "ChallengeSubmission list"
  onClose_calls :: nat

definition initial_screen :: "nat \<Rightarrow> screen" where
  "initial_screen n = \<lparr> draft_text = [], selectedImage = None, isSubmitting = False,
     clock_reads = n, alerts = [], onSubmit_calls = [], onClose_calls = 0 \<rparr>"

text \<open>
  The wall clock is the environment's: \<open>clock k\<close> is what the \<open>k\<close>-th reading of the
  process returns, in milliseconds. \<^verbatim>\<open>Date.now()\<close> and \<^verbatim>\<open>new Date()\<close> each read it once.
\<close>

definition Date_now :: "(nat \<Rightarrow> int) \<Rightarrow> screen \<Rightarrow> int \<times> screen" where
  "Date_now clock s = (clock (clock_reads s), s\<lparr>clock_reads := Suc (clock_reads s)\<rparr>)"

definition Alert_alert :: "jsstring \<Rightarrow> jsstring \<Rightarrow> screen \<Rightarrow> screen" where
  "Alert_alert t m s = s\<lparr>alerts := alerts s @ [(t, m)]\<rparr>"

text \<open>
  Truthiness of a value of type \<^verbatim>\<open>string | null\<close>: \<^verbatim>\<open>null\<close> and the empty string are
  falsy, every other string is truthy.
\<close>

definition truthy :: "jsstring option \<Rightarrow> bool" where
  "truthy v = (case v of None \<Rightarrow> False | Some x \<Rightarrow> x \<noteq> [])"

datatype picker_result = PermissionDenied | Canceled | Picked jsstring

definition pickImage :: "picker_result \<Rightarrow> screen \<Rightarrow> screen" where
  "pickImage r s =
     (case r of
        PermissionDenied \<Rightarrow>
          Alert_alert (lit ''Permission needed'')
            (lit ''Permission to access camera roll is required!'') s
      | Canceled \<Rightarrow> s
      | Picked uri \<Rightarrow> s\<lparr>selectedImage := Some uri\<rparr>)"

definition takePhoto :: "picker_result \<Rightarrow> screen \<Rightarrow> screen" where
  "takePhoto r s =
     (case r of
        PermissionDenied \<Rightarrow>
          Alert_alert (lit ''Permission needed'') (lit ''Camera permission is required!'') s
      | Canceled \<Rightarrow> s
      | Picked uri \<Rightarrow> s\<lparr>selectedImage := Some uri\<rparr>)"

subsection \<open>handleSubmit\<close>

datatype submit_error = EmptySubmission

definition placeholder_author :: Author where
  "placeholder_author = \<lparr>
     author_name = lit ''You'',
     author_avatar = lit ''https://images.unsplash.com/photo-1472099645785-5658abf4ff4e?w=100&h=100&fit=crop&crop=face'',
     author_username = lit ''@you'' \<rparr>"

text \<open>
  \<^verbatim>\<open>handleSubmit\<close> from its entry to the \<^verbatim>\<open>await\<close>: the check of the draft, then
  \<^verbatim>\<open>setIsSubmitting(true)\<close> and the record, whose fields are evaluated in the order
  they are written. The result is the rejection or the record with which the
  invocation is suspended.
\<close>

definition handleSubmit_start ::
  "(nat \<Rightarrow> int) \<Rightarrow> ChallengeCard \<Rightarrow> participation \<Rightarrow> screen
     \<Rightarrow> (submit_error + ChallengeSubmission) \<times> screen" where
  "handleSubmit_start clock challenge ptype s =
     (if \<not> truthy (Some (trim (draft_text s))) \<and> \<not> truthy (selectedImage s) then
        (Inl EmptySubmission,
         Alert_alert (lit ''Empty post'')
           (lit ''Please add some text or an image to share your moment.'') s)
      else
        let s1 = s\<lparr>isSubmitting := True\<rparr>;
            (now, s2) = Date_now clock s1;
            (date, s3) = Date_now clock s2;
            submission = \<lparr>
              sub_id = Number_toString now,
              challengeId = card_id challenge,
              challengeTitle = card_title challenge,
              challengeIcon = card_image challenge,
              sub_text = trim (draft_text s),
              sub_image = (if truthy (selectedImage s) then selectedImage s else None),
              timestamp = date,
              author = placeholder_author,
              likes = 0,
              comments = 0,
              shares = 0,
              participationType = ptype \<rparr>
        in (Inr submission, s3))"

text \<open>
  The rest of \<^verbatim>\<open>handleSubmit\<close>, run when the timer of one second has fired. The two
  collaborators are typed \<^verbatim>\<open>=> void\<close>, a type that an \<^verbatim>\<open>async\<close> function has too. A
  call of one of them returns, throws, or returns a promise that is rejected later
  (\<open>Rejects\<close>). The calls are not awaited: \<^verbatim>\<open>onSubmit(submission)\<close> and
  \<^verbatim>\<open>onClose()\<close> are plain statements, so a returned promise is dropped and its
  rejection never reaches the \<^verbatim>\<open>catch\<close> block. Whatever is thrown inside \<^verbatim>\<open>try\<close>
  ends in the \<^verbatim>\<open>catch\<close> block, and \<^verbatim>\<open>finally\<close> runs on both paths.
\<close>

datatype outcome = Returns | Throws | Rejects

definition handleSubmit_resume ::
  "(ChallengeSubmission \<Rightarrow> outcome) \<Rightarrow> outcome \<Rightarrow> ChallengeSubmission \<Rightarrow> screen \<Rightarrow> screen" where
  "handleSubmit_resume onSubmit onClose submission s =
     (let failed = Alert_alert (lit ''Error'')
            (lit ''Failed to submit your post. Please try again.'');
          s1 = s\<lparr>onSubmit_calls := onSubmit_calls s @ [submission]\<rparr>;
          s2 = (if onSubmit submission = Throws then failed s1
                else
                  let s3 = Alert_alert (lit ''Success!'')
                        (lit ''Your moment has been shared with the community! '' @ [0x2728]) s1;
                      s4 = s3\<lparr>onClose_calls := Suc (onClose_calls s3)\<rparr>
                  in (if onClose = Throws then failed s4 else s4))
      in s2\<lparr>isSubmitting := False\<rparr>)"

text \<open>One invocation run to its end, with no other event of the screen in between.\<close>

definition handleSubmit ::
  "(nat \<Rightarrow> int) \<Rightarrow> ChallengeCard \<Rightarrow> participation \<Rightarrow> (ChallengeSubmission \<Rightarrow> outcome)
     \<Rightarrow> outcome \<Rightarrow> screen \<Rightarrow> (submit_error + ChallengeSubmission) \<times> screen" where
  "handleSubmit clock challenge ptype onSubmit onClose s =
     (case handleSubmit_start clock challenge ptype s of
        (Inl e, s') \<Rightarrow> (Inl e, s')
      | (Inr submission, s') \<Rightarrow>
          (Inr submission, handleSubmit_resume onSubmit onClose submission s'))"

subsection \<open>The event loop\<close>

text \<open>
  The screen runs on one thread: an event handler runs to its end, or to its first
  \<^verbatim>\<open>await\<close>, before the next event is delivered, and the state updates it made are
  rendered by then. A configuration is the screen together with the invocations of
  \<^verbatim>\<open>handleSubmit\<close> that are suspended at the \<^verbatim>\<open>await\<close>, oldest first. The submit
  control carries \<^verbatim>\<open>disabled={isSubmitting}\<close>, and it is the only caller of
  \<^verbatim>\<open>handleSubmit\<close>.
\<close>

definition submit_disabled :: "screen \<Rightarrow> bool" where
  "submit_disabled s = isSubmitting s"

inductive reachable ::
  "(nat \<Rightarrow> int) \<Rightarrow> ChallengeCard \<Rightarrow> participation
     \<Rightarrow> screen \<times> ChallengeSubmission list \<Rightarrow> bool"
  for clock :: "nat \<Rightarrow> int" and challenge :: ChallengeCard and ptype :: participation where
  Mount: "reachable clock challenge ptype (initial_screen n, [])"
| ChangeText:
    "reachable clock challenge ptype (s, p)
     \<Longrightarrow> reachable clock challenge ptype (s\<lparr>draft_text := t\<rparr>, p)"
| PickImage:
    "reachable clock challenge ptype (s, p)
     \<Longrightarrow> reachable clock challenge ptype (pickImage r s, p)"
| TakePhoto:
    "reachable clock challenge ptype (s, p)
     \<Longrightarrow> reachable clock challenge ptype (takePhoto r s, p)"
| RemoveImage:
    "reachable clock challenge ptype (s, p)
     \<Longrightarrow> reachable clock challenge ptype (s\<lparr>selectedImage := None\<rparr>, p)"
| PressClose:
    "reachable clock challenge ptype (s, p)
     \<Longrightarrow> reachable clock challenge ptype (s\<lparr>onClose_calls := Suc (onClose_calls s)\<rparr>, p)"
| PressSubmit:
    "reachable clock challenge ptype (s, p) \<Longrightarrow> \<not> submit_disabled s
     \<Longrightarrow> handleSubmit_start clock challenge ptype s = (r, s')
     \<Longrightarrow> reachable clock challenge ptype
           (s', case r of Inl e \<Rightarrow> p | Inr submission \<Rightarrow> p @ [submission])"
| TimerFires:
    "reachable clock challenge ptype (s, submission # p)
     \<Longrightarrow> reachable clock challenge ptype
           (handleSubmit_resume onSubmit onClose submission s, p)"

section \<open>Example inputs\<close>

definition example_card :: ChallengeCard where
  "example_card = \<lparr> card_id = 7, card_title = lit ''Morning Meditation Challenge'',
     card_subtitle = lit ''Ten quiet minutes'', card_image = lit ''M'',
     card_gradient = [lit ''#4facfe'', lit ''#00f2fe''] \<rparr>"

text \<open>A lower-case mapping that leaves every code unit above U+00FF as it is.\<close>

definition keep_unit :: unicode_lower where
  "keep_unit before c after = [c]"

text \<open>A wall clock that advances by seven milliseconds from one reading to the next.\<close>

definition ticking_clock :: "nat \<Rightarrow> int" where
  "ticking_clock k = 1700000000000 + 7 * int k"

text \<open>
  A wall clock whose readings all fall on the same millisecond, as they do when the
  system time is set back between two readings or when two readings follow each other
  within one millisecond.
\<close>

definition stalled_clock :: "nat \<Rightarrow> int" where
  "stalled_clock k = 1700000000000"

definition accepting :: "ChallengeSubmission \<Rightarrow> outcome" where
  "accepting submission = Returns"

definition failing :: "ChallengeSubmission \<Rightarrow> outcome" where
  "failing submission = Throws"

text \<open>
  A collaborator written as an \<^verbatim>\<open>async\<close> function whose request fails: the call
  returns a promise, and the promise is rejected.
\<close>

definition rejecting :: "ChallengeSubmission \<Rightarrow> outcome" where
  "rejecting submission = Rejects"

definition text_draft :: screen where
  "text_draft = (initial_screen 0)\<lparr>draft_text := lit ''  so calm  ''\<rparr>"

definition photo_draft :: screen where
  "photo_draft = (initial_screen 0)\<lparr>selectedImage := Some (lit ''file:///p.jpg'')\<rparr>"

definition blank_draft :: screen where
  "blank_draft = (initial_screen 0)\<lparr>draft_text := lit ''   ''\<rparr>"

definition empty_uri_draft :: screen where
  "empty_uri_draft = (initial_screen 0)\<lparr>draft_text := lit ''hi'', selectedImage := Some []\<rparr>"

section \<open>Strings\<close>

lemma includes_js_sublist: "includes_js s k \<longleftrightarrow> sublist k s"
  by (induction s) (auto simp: sublist_Cons_right)

lemma map_has_run:
  "(\<exists>ps ss. map f t = ps @ k @ ss) \<longleftrightarrow> (\<exists>pre mid post. t = pre @ mid @ post \<and> map f mid = k)"
proof
  assume "\<exists>ps ss. map f t = ps @ k @ ss"
  then obtain ps ss where "map f t = ps @ (k @ ss)" by (elim exE)
  then have "\<exists>us vs. t = us @ vs \<and> ps = map f us \<and> k @ ss = map f vs"
    by (simp only: map_eq_append_conv)
  then obtain pre rest where t: "t = pre @ rest" and rest: "map f rest = k @ ss"
    by (elim exE conjE) (rule that, assumption, rule sym, assumption)
  then have "\<exists>us vs. rest = us @ vs \<and> k = map f us \<and> ss = map f vs"
    by (simp only: map_eq_append_conv)
  then obtain mid post where r: "rest = mid @ post" and k: "map f mid = k"
    by (elim exE conjE) (rule that, assumption, rule sym, assumption)
  show "\<exists>pre mid post. t = pre @ mid @ post \<and> map f mid = k"
    by (rule exI [of _ pre], rule exI [of _ mid], rule exI [of _ post]) (simp only: t r k)
next
  assume "\<exists>pre mid post. t = pre @ mid @ post \<and> map f mid = k"
  then obtain pre mid post where t: "t = pre @ mid @ post" and k: "map f mid = k"
    by (elim exE conjE)
  have "map f t = map f pre @ k @ map f post"
    by (simp only: t map_append k)
  then show "\<exists>ps ss. map f t = ps @ k @ ss"
    by (intro exI)
qed

lemma lower_units_latin1:
  "list_all latin1 s \<Longrightarrow> lower_units U b s = map lower_latin1 s"
  by (induction s arbitrary: b) simp_all

lemma toLowerCase_latin1:
  "list_all latin1 s \<Longrightarrow> toLowerCase U s = map lower_latin1 s"
  by (simp add: toLowerCase_def lower_units_latin1)

lemma lower_units_run:
  "list_all latin1 mid
   \<Longrightarrow> lower_units U b (mid @ post) = map lower_latin1 mid @ lower_units U (b @ mid) post"
  by (induction mid arbitrary: b) simp_all

lemma lower_units_skip:
  "\<exists>x. lower_units U b (pre @ rest) = x @ lower_units U (b @ pre) rest"
proof (induction pre arbitrary: b)
  case Nil
  show ?case by simp
next
  case (Cons c pre)
  from Cons.IH [of "b @ [c]"] obtain x where
    "lower_units U (b @ [c]) (pre @ rest) = x @ lower_units U ((b @ [c]) @ pre) rest"
    by (elim exE)
  then have "lower_units U b ((c # pre) @ rest)
      = ((if latin1 c then [lower_latin1 c] else U b c (pre @ rest)) @ x)
        @ lower_units U (b @ c # pre) rest"
    by simp
  then show ?case by (rule exI)
qed

lemma toLowerCase_run:
  assumes "list_all latin1 mid"
  shows "\<exists>x y. toLowerCase U (pre @ mid @ post) = x @ map lower_latin1 mid @ y"
proof -
  obtain x where "lower_units U [] (pre @ mid @ post) = x @ lower_units U ([] @ pre) (mid @ post)"
    using lower_units_skip [of U "[]" pre "mid @ post"] by (elim exE)
  then have "toLowerCase U (pre @ mid @ post)
      = x @ map lower_latin1 mid @ lower_units U (([] @ pre) @ mid) post"
    by (simp only: toLowerCase_def lower_units_run [OF assms])
  then show ?thesis by (intro exI)
qed

lemma latin1_lower_latin1:
  assumes "latin1 (lower_latin1 c)"
  shows "latin1 c"
proof (cases "(0x41 \<le> c \<and> c \<le> 0x5A) \<or> (0xC0 \<le> c \<and> c \<le> 0xDE \<and> c \<noteq> 0xD7)")
  case True
  have "(0x5A :: jschar) \<le> 0xFF" and "(0xDE :: jschar) \<le> 0xFF" by simp_all
  with True have "c \<le> 0xFF" by (meson order_trans)
  then show ?thesis by (simp only: latin1_def)
next
  case False
  then have "lower_latin1 c = c" by (simp only: lower_latin1_def if_False)
  with assms show ?thesis by simp
qed

lemma includes_js_toLowerCase_run:
  assumes "list_all latin1 (map lower_latin1 mid)"
  shows "includes_js (toLowerCase U (pre @ mid @ post)) (map lower_latin1 mid)"
proof -
  from assms have "list_all latin1 mid"
    by (simp add: list_all_iff latin1_lower_latin1)
  then have "\<exists>x y. toLowerCase U (pre @ mid @ post) = x @ map lower_latin1 mid @ y"
    by (rule toLowerCase_run)
  then show ?thesis
    by (simp only: includes_js_sublist sublist_def)
qed

lemma includes_js_toLowerCase_latin1:
  assumes "list_all latin1 t"
  shows "includes_js (toLowerCase U t) k
         \<longleftrightarrow> (\<exists>pre mid post. t = pre @ mid @ post \<and> map lower_latin1 mid = k)"
proof -
  have "toLowerCase U t = map lower_latin1 t"
    using assms by (rule toLowerCase_latin1)
  then have "includes_js (toLowerCase U t) k \<longleftrightarrow> (\<exists>ps ss. map lower_latin1 t = ps @ k @ ss)"
    by (simp only: includes_js_sublist sublist_def)
  then show ?thesis by (simp only: map_has_run)
qed

section \<open>The theme resolver: first match wins\<close>

lemma getChallengeTheme_first:
  "getChallengeTheme U t =
     (if group_matches U t Peace then peaceTheme
      else if group_matches U t Adventure then adventureTheme
      else if group_matches U t Gratitude then gratitudeTheme
      else if group_matches U t Creative then creativeTheme
      else if group_matches U t Fitness then fitnessTheme
      else genericTheme)"
  by (simp add: getChallengeTheme_def group_matches_def Let_def)

lemma themes_distinct:
  "distinct [peaceTheme, adventureTheme, gratitudeTheme, creativeTheme, fitnessTheme,
     genericTheme]"
  by (simp add: peaceTheme_def adventureTheme_def gratitudeTheme_def creativeTheme_def
      fitnessTheme_def genericTheme_def lit_def)

lemma first_match:
  assumes "group_matches U t g"
  shows "\<exists>h. group_matches U t h \<and> (\<forall>x. group_matches U t x \<longrightarrow> group_rank h \<le> group_rank x)
           \<and> getChallengeTheme U t = group_theme h"
proof -
  consider (p) "group_matches U t Peace"
    | (a) "\<not> group_matches U t Peace" "group_matches U t Adventure"
    | (g) "\<not> group_matches U t Peace" "\<not> group_matches U t Adventure"
          "group_matches U t Gratitude"
    | (c) "\<not> group_matches U t Peace" "\<not> group_matches U t Adventure"
          "\<not> group_matches U t Gratitude" "group_matches U t Creative"
    | (f) "\<not> group_matches U t Peace" "\<not> group_matches U t Adventure"
          "\<not> group_matches U t Gratitude" "\<not> group_matches U t Creative"
          "group_matches U t Fitness"
    using assms by (cases g) auto
  then show ?thesis
  proof cases
    case p
    have "\<forall>x. group_matches U t x \<longrightarrow> group_rank Peace \<le> group_rank x"
    proof (intro allI impI)
      fix x show "group_rank Peace \<le> group_rank x" by (cases x) simp_all
    qed
    with p show ?thesis
      by (intro exI [of _ Peace]) (simp add: getChallengeTheme_first)
  next
    case a
    have "\<forall>x. group_matches U t x \<longrightarrow> group_rank Adventure \<le> group_rank x"
    proof (intro allI impI)
      fix x assume "group_matches U t x"
      with a show "group_rank Adventure \<le> group_rank x" by (cases x) simp_all
    qed
    with a show ?thesis
      by (intro exI [of _ Adventure]) (simp add: getChallengeTheme_first)
  next
    case g
    have "\<forall>x. group_matches U t x \<longrightarrow> group_rank Gratitude \<le> group_rank x"
    proof (intro allI impI)
      fix x assume "group_matches U t x"
      with g show "group_rank Gratitude \<le> group_rank x" by (cases x) simp_all
    qed
    with g show ?thesis
      by (intro exI [of _ Gratitude]) (simp add: getChallengeTheme_first)
  next
    case c
    have "\<forall>x. group_matches U t x \<longrightarrow> group_rank Creative \<le> group_rank x"
    proof (intro allI impI)
      fix x assume "group_matches U t x"
      with c show "group_rank Creative \<le> group_rank x" by (cases x) simp_all
    qed
    with c show ?thesis
      by (intro exI [of _ Creative]) (simp add: getChallengeTheme_first)
  next
    case f
    have "\<forall>x. group_matches U t x \<longrightarrow> group_rank Fitness \<le> group_rank x"
    proof (intro allI impI)
      fix x assume "group_matches U t x"
      with f show "group_rank Fitness \<le> group_rank x" by (cases x) simp_all
    qed
    with f show ?thesis
      by (intro exI [of _ Fitness]) (simp add: getChallengeTheme_first)
  qed
qed

lemma only_match:
  assumes "group_matches U t g" and "\<forall>g'. g' \<noteq> g \<longrightarrow> \<not> group_matches U t g'"
  shows "getChallengeTheme U t = group_theme g"
  using assms by (cases g) (simp_all add: getChallengeTheme_first)

lemma no_match:
  assumes "\<forall>g. \<not> group_matches U t g"
  shows "getChallengeTheme U t = genericTheme"
  using assms by (simp add: getChallengeTheme_first)

lemma keyword_latin1: "k \<in> set (group_keywords g) \<Longrightarrow> list_all latin1 k"
  by (cases g) (auto simp add: latin1_def lit_def)

lemma group_matches_run:
  assumes "map lower_latin1 mid \<in> set (group_keywords g)"
  shows "group_matches U (pre @ mid @ post) g"
proof -
  from assms have "list_all latin1 (map lower_latin1 mid)"
    by (rule keyword_latin1)
  then have "includes_js (toLowerCase U (pre @ mid @ post)) (map lower_latin1 mid)"
    by (rule includes_js_toLowerCase_run)
  with assms show ?thesis
    unfolding group_matches_def list_ex_iff by blast
qed

lemma group_matches_latin1:
  assumes "list_all latin1 t"
  shows "group_matches U t g
         \<longleftrightarrow> (\<exists>pre mid post. t = pre @ mid @ post
                \<and> map lower_latin1 mid \<in> set (group_keywords g))"
proof
  assume "group_matches U t g"
  then obtain k where k: "k \<in> set (group_keywords g)"
    and "includes_js (toLowerCase U t) k"
    unfolding group_matches_def list_ex_iff by blast
  then have "\<exists>pre mid post. t = pre @ mid @ post \<and> map lower_latin1 mid = k"
    by (simp only: includes_js_toLowerCase_latin1 [OF assms])
  with k show "\<exists>pre mid post. t = pre @ mid @ post
      \<and> map lower_latin1 mid \<in> set (group_keywords g)"
    by blast
next
  assume "\<exists>pre mid post. t = pre @ mid @ post
      \<and> map lower_latin1 mid \<in> set (group_keywords g)"
  then show "group_matches U t g"
    using group_matches_run by blast
qed

lemmas eval_title = getChallengeTheme_def group_matches_def toLowerCase_def latin1_def
  lower_latin1_def lit_def

text \<open>
  C2. Whenever keywords of two different groups appear in a title, the resolver
  returns the theme of a matching group that no other matching group precedes in the
  priority order; the title "Peaceful Adventure" resolves to the peace theme.
\<close>

theorem resolver_first_group_wins:
  "(group_matches U t g \<and> group_matches U t g' \<and> g \<noteq> g' \<longrightarrow>
      (\<exists>h. group_matches U t h
         \<and> (\<forall>x. group_matches U t x \<longrightarrow> group_rank h \<le> group_rank x)
         \<and> getChallengeTheme U t = group_theme h))
   \<and> getChallengeTheme U (lit ''Peaceful Adventure'') = peaceTheme"
proof (intro conjI impI)
  assume "group_matches U t g \<and> group_matches U t g' \<and> g \<noteq> g'"
  then have "group_matches U t g" by (rule conjunct1)
  then show "\<exists>h. group_matches U t h
         \<and> (\<forall>x. group_matches U t x \<longrightarrow> group_rank h \<le> group_rank x)
         \<and> getChallengeTheme U t = group_theme h"
    by (rule first_match)
next
  show "getChallengeTheme U (lit ''Peaceful Adventure'') = peaceTheme"
    by (simp add: eval_title)
qed

theorem resolver_first_group_wins_witness:
  "group_matches keep_unit (lit ''Thankful Workout Journey'') Fitness
   \<and> group_matches keep_unit (lit ''Thankful Workout Journey'') Gratitude
   \<and> group_matches keep_unit (lit ''Thankful Workout Journey'') Adventure
   \<and> getChallengeTheme keep_unit (lit ''Thankful Workout Journey'') = adventureTheme
   \<and> (\<exists>h. group_matches keep_unit (lit ''Thankful Workout Journey'') h
         \<and> (\<forall>x. group_matches keep_unit (lit ''Thankful Workout Journey'') x
               \<longrightarrow> group_rank h \<le> group_rank x)
         \<and> getChallengeTheme keep_unit (lit ''Thankful Workout Journey'') = group_theme h)"
proof -
  have m: "group_matches keep_unit (lit ''Thankful Workout Journey'') Fitness
       \<and> group_matches keep_unit (lit ''Thankful Workout Journey'') Gratitude
       \<and> Fitness \<noteq> Gratitude"
    by (simp add: eval_title)
  have a: "group_matches keep_unit (lit ''Thankful Workout Journey'') Adventure"
    by (simp add: eval_title)
  have th: "getChallengeTheme keep_unit (lit ''Thankful Workout Journey'') = adventureTheme"
    by (simp add: eval_title)
  from resolver_first_group_wins [of keep_unit "lit ''Thankful Workout Journey''" Fitness Gratitude] m
  have "\<exists>h. group_matches keep_unit (lit ''Thankful Workout Journey'') h
         \<and> (\<forall>x. group_matches keep_unit (lit ''Thankful Workout Journey'') x
               \<longrightarrow> group_rank h \<le> group_rank x)
         \<and> getChallengeTheme keep_unit (lit ''Thankful Workout Journey'') = group_theme h"
    by blast
  with m a th show ?thesis by blast
qed

text \<open>
  C3. A title in which a keyword of exactly one group appears, in any case and at any
  position, resolves to the theme of that group. A keyword appears in a title when
  some run of the title, wherever it lies and whatever stands around it, is the
  keyword up to the case of its letters; this holds for every title, also one with
  code units above U+00FF. For a title over U+0000..U+00FF that no keyword of another
  group appears is stated in the same way. "Morning Meditation Challenge" and
  "MINDFUL Monday" resolve to the peace theme, and so does "MINDFUL Monday" followed
  by an emoji.
\<close>

theorem resolver_single_group:
  "(group_matches U t g \<and> (\<forall>g'. g' \<noteq> g \<longrightarrow> \<not> group_matches U t g')
      \<longrightarrow> getChallengeTheme U t = group_theme g)
   \<and> (map lower_latin1 mid \<in> set (group_keywords g)
        \<and> (\<forall>g'. g' \<noteq> g \<longrightarrow> \<not> group_matches U (pre @ mid @ post) g')
      \<longrightarrow> getChallengeTheme U (pre @ mid @ post) = group_theme g)
   \<and> (list_all latin1 t
        \<and> (\<exists>a b c. t = a @ b @ c \<and> map lower_latin1 b \<in> set (group_keywords g))
        \<and> (\<forall>g'. g' \<noteq> g \<longrightarrow>
              \<not> (\<exists>a b c. t = a @ b @ c \<and> map lower_latin1 b \<in> set (group_keywords g')))
      \<longrightarrow> getChallengeTheme U t = group_theme g)
   \<and> getChallengeTheme U (lit ''Morning Meditation Challenge'') = peaceTheme
   \<and> getChallengeTheme U (lit ''MINDFUL Monday'') = peaceTheme
   \<and> getChallengeTheme U (lit ''MINDFUL Monday '' @ [0xD83D, 0xDE4F]) = peaceTheme"
proof (intro conjI impI)
  assume "group_matches U t g \<and> (\<forall>g'. g' \<noteq> g \<longrightarrow> \<not> group_matches U t g')"
  then show "getChallengeTheme U t = group_theme g"
    using only_match by blast
next
  assume a: "map lower_latin1 mid \<in> set (group_keywords g)
      \<and> (\<forall>g'. g' \<noteq> g \<longrightarrow> \<not> group_matches U (pre @ mid @ post) g')"
  then have "group_matches U (pre @ mid @ post) g"
    using group_matches_run by blast
  with a show "getChallengeTheme U (pre @ mid @ post) = group_theme g"
    using only_match by blast
next
  assume a: "list_all latin1 t
      \<and> (\<exists>a b c. t = a @ b @ c \<and> map lower_latin1 b \<in> set (group_keywords g))
      \<and> (\<forall>g'. g' \<noteq> g \<longrightarrow>
            \<not> (\<exists>a b c. t = a @ b @ c \<and> map lower_latin1 b \<in> set (group_keywords g')))"
  then have l: "list_all latin1 t" by (rule conjunct1)
  from a have "group_matches U t g \<and> (\<forall>g'. g' \<noteq> g \<longrightarrow> \<not> group_matches U t g')"
    unfolding group_matches_latin1 [OF l] by blast
  then show "getChallengeTheme U t = group_theme g"
    using only_match by blast
next
  show "getChallengeTheme U (lit ''Morning Meditation Challenge'') = peaceTheme"
    by (simp add: eval_title)
next
  show "getChallengeTheme U (lit ''MINDFUL Monday'') = peaceTheme"
    by (simp add: eval_title)
next
  have k: "map lower_latin1 (lit ''MINDFUL'') \<in> set (group_keywords Peace)"
    by (simp add: lower_latin1_def lit_def)
  have "group_matches U ([] @ lit ''MINDFUL'' @ (lit '' Monday '' @ [0xD83D, 0xDE4F])) Peace"
    using k by (rule group_matches_run)
  then have "group_matches U (lit ''MINDFUL Monday '' @ [0xD83D, 0xDE4F]) Peace"
    by (simp add: lit_def)
  then show "getChallengeTheme U (lit ''MINDFUL Monday '' @ [0xD83D, 0xDE4F]) = peaceTheme"
    by (simp only: getChallengeTheme_first if_True)
qed

theorem resolver_single_group_witness:
  "map lower_latin1 (lit ''WORKOUT'') \<in> set (group_keywords Fitness)
   \<and> group_matches keep_unit
        (lit ''30-Day '' @ lit ''WORKOUT'' @ lit '' Streak '' @ [0xD83D, 0xDCAA]) Fitness
   \<and> \<not> group_matches keep_unit
        (lit ''30-Day '' @ lit ''WORKOUT'' @ lit '' Streak '' @ [0xD83D, 0xDCAA]) Peace
   \<and> \<not> group_matches keep_unit
        (lit ''30-Day '' @ lit ''WORKOUT'' @ lit '' Streak '' @ [0xD83D, 0xDCAA]) Adventure
   \<and> \<not> group_matches keep_unit
        (lit ''30-Day '' @ lit ''WORKOUT'' @ lit '' Streak '' @ [0xD83D, 0xDCAA]) Gratitude
   \<and> \<not> group_matches keep_unit
        (lit ''30-Day '' @ lit ''WORKOUT'' @ lit '' Streak '' @ [0xD83D, 0xDCAA]) Creative
   \<and> getChallengeTheme keep_unit
        (lit ''30-Day '' @ lit ''WORKOUT'' @ lit '' Streak '' @ [0xD83D, 0xDCAA]) = fitnessTheme
   \<and> list_all latin1 (lit ''Art Walk'')
   \<and> (\<exists>a b c. lit ''Art Walk'' = a @ b @ c
         \<and> map lower_latin1 b \<in> set (group_keywords Creative))
   \<and> \<not> (\<exists>a b c. lit ''Art Walk'' = a @ b @ c
         \<and> map lower_latin1 b \<in> set (group_keywords Peace))
   \<and> \<not> (\<exists>a b c. lit ''Art Walk'' = a @ b @ c
         \<and> map lower_latin1 b \<in> set (group_keywords Adventure))
   \<and> \<not> (\<exists>a b c. lit ''Art Walk'' = a @ b @ c
         \<and> map lower_latin1 b \<in> set (group_keywords Gratitude))
   \<and> \<not> (\<exists>a b c. lit ''Art Walk'' = a @ b @ c
         \<and> map lower_latin1 b \<in> set (group_keywords Fitness))
   \<and> getChallengeTheme keep_unit (lit ''Art Walk'') = creativeTheme"
proof -
  let ?t = "lit ''30-Day '' @ lit ''WORKOUT'' @ lit '' Streak '' @ [0xD83D, 0xDCAA]"
  let ?u = "lit ''Art Walk''"
  have k: "map lower_latin1 (lit ''WORKOUT'') \<in> set (group_keywords Fitness)"
    by (simp add: lower_latin1_def lit_def)
  have m: "group_matches keep_unit ?t Fitness"
    by (simp add: eval_title keep_unit_def)
  have others: "\<not> group_matches keep_unit ?t Peace" "\<not> group_matches keep_unit ?t Adventure"
    "\<not> group_matches keep_unit ?t Gratitude" "\<not> group_matches keep_unit ?t Creative"
    by (simp_all add: eval_title keep_unit_def)
  have n: "\<forall>g'. g' \<noteq> Fitness \<longrightarrow> \<not> group_matches keep_unit ?t g'"
  proof (intro allI impI)
    fix g' :: theme_group
    assume "g' \<noteq> Fitness"
    with others show "\<not> group_matches keep_unit ?t g'"
      by (cases g') simp_all
  qed
  note inst = resolver_single_group [of keep_unit ?t Fitness "lit ''WORKOUT''" "lit ''30-Day ''"
      "lit '' Streak '' @ [0xD83D, 0xDCAA]"]
  from inst m n have one: "getChallengeTheme keep_unit ?t = group_theme Fitness"
    by blast
  from inst k n have "getChallengeTheme keep_unit ?t = group_theme Fitness"
    by blast
  have l: "list_all latin1 ?u"
    by (simp add: latin1_def lit_def)
  have c: "group_matches keep_unit ?u Creative"
    by (simp add: eval_title)
  have rest: "\<not> group_matches keep_unit ?u Peace" "\<not> group_matches keep_unit ?u Adventure"
    "\<not> group_matches keep_unit ?u Gratitude" "\<not> group_matches keep_unit ?u Fitness"
    by (simp_all add: eval_title)
  note c' = c [unfolded group_matches_latin1 [OF l]]
  note rest' = rest [unfolded group_matches_latin1 [OF l]]
  have n': "\<forall>g'. g' \<noteq> Creative \<longrightarrow>
      \<not> (\<exists>a b c. ?u = a @ b @ c \<and> map lower_latin1 b \<in> set (group_keywords g'))"
  proof (intro allI impI)
    fix g' :: theme_group
    assume "g' \<noteq> Creative"
    with rest' show "\<not> (\<exists>a b c. ?u = a @ b @ c \<and> map lower_latin1 b \<in> set (group_keywords g'))"
      by (cases g') simp_all
  qed
  from resolver_single_group [of keep_unit ?u Creative] l c' n'
  have two: "getChallengeTheme keep_unit ?u = group_theme Creative"
    by blast
  from k m others one l c' rest' two show ?thesis
    by simp
qed

text \<open>
  C4, as amended. On strings the resolver is total: every call with a string returns
  a theme, a title in which no keyword of any group appears resolves to the generic
  theme, and so do the empty title and "Random Challenge". The parameter's type
  excludes \<^verbatim>\<open>null\<close>.
\<close>

theorem resolver_total_on_strings:
  "(\<exists>th. getChallengeTheme_rt U (Some t) = Inr th)
   \<and> ((\<forall>g. \<not> group_matches U t g) \<longrightarrow> getChallengeTheme_rt U (Some t) = Inr genericTheme)
   \<and> getChallengeTheme_rt U (Some []) = Inr genericTheme
   \<and> getChallengeTheme_rt U (Some (lit ''Random Challenge'')) = Inr genericTheme"
proof (intro conjI impI)
  show "\<exists>th. getChallengeTheme_rt U (Some t) = Inr th"
    by (simp add: getChallengeTheme_rt_def)
next
  assume "\<forall>g. \<not> group_matches U t g"
  then show "getChallengeTheme_rt U (Some t) = Inr genericTheme"
    by (simp add: getChallengeTheme_rt_def no_match)
next
  show "getChallengeTheme_rt U (Some []) = Inr genericTheme"
    by (simp add: getChallengeTheme_rt_def eval_title)
next
  show "getChallengeTheme_rt U (Some (lit ''Random Challenge'')) = Inr genericTheme"
    by (simp add: getChallengeTheme_rt_def eval_title)
qed

theorem resolver_total_on_strings_witness:
  "(\<forall>g. \<not> group_matches keep_unit (lit ''Weekend Reading Club'') g)
   \<and> getChallengeTheme_rt keep_unit (Some (lit ''Weekend Reading Club'')) = Inr genericTheme"
proof -
  have n: "\<forall>g. \<not> group_matches keep_unit (lit ''Weekend Reading Club'') g"
  proof
    fix g show "\<not> group_matches keep_unit (lit ''Weekend Reading Club'') g"
      by (cases g) (simp_all add: eval_title)
  qed
  with resolver_total_on_strings [of keep_unit "lit ''Weekend Reading Club''"] show ?thesis
    by blast
qed

text \<open>
  C4 as stated fails for \<^verbatim>\<open>null\<close>: the call throws a \<^verbatim>\<open>TypeError\<close> and returns no
  theme.
\<close>

theorem resolver_null_title_throws:
  "getChallengeTheme_rt keep_unit None = Inl TypeError"
  by (simp add: getChallengeTheme_rt_def)

section \<open>The submission builder\<close>

lemma truthy_iff: "truthy v \<longleftrightarrow> v \<noteq> None \<and> v \<noteq> Some []"
  by (cases v) (simp_all add: truthy_def)

lemma handleSubmit_start_rejected:
  assumes "trim (draft_text s) = []" and "selectedImage s = None \<or> selectedImage s = Some []"
  shows "handleSubmit_start clock challenge ptype s =
           (Inl EmptySubmission,
            s\<lparr>alerts := alerts s @ [(lit ''Empty post'',
                 lit ''Please add some text or an image to share your moment.'')]\<rparr>)"
  using assms by (auto simp add: handleSubmit_start_def truthy_iff Alert_alert_def)

lemma handleSubmit_start_accepted:
  assumes "\<not> (trim (draft_text s) = [] \<and> (selectedImage s = None \<or> selectedImage s = Some []))"
  shows "handleSubmit_start clock challenge ptype s =
           (Inr \<lparr> sub_id = Number_toString (clock (clock_reads s)),
                  challengeId = card_id challenge,
                  challengeTitle = card_title challenge,
                  challengeIcon = card_image challenge,
                  sub_text = trim (draft_text s),
                  sub_image = (if selectedImage s = Some [] then None else selectedImage s),
                  timestamp = clock (Suc (clock_reads s)),
                  author = placeholder_author,
                  likes = 0, comments = 0, shares = 0,
                  participationType = ptype \<rparr>,
            s\<lparr>isSubmitting := True, clock_reads := Suc (Suc (clock_reads s))\<rparr>)"
proof -
  from assms have go: "\<not> (\<not> truthy (Some (trim (draft_text s))) \<and> \<not> truthy (selectedImage s))"
    by (simp add: truthy_iff)
  have img: "(if truthy (selectedImage s) then selectedImage s else None)
             = (if selectedImage s = Some [] then None else selectedImage s)"
    by (cases "selectedImage s") (simp_all add: truthy_def)
  show ?thesis
    unfolding handleSubmit_start_def
    by (simp only: go if_False Let_def Date_now_def split_conv img) simp
qed

lemma handleSubmit_fst:
  "fst (handleSubmit clock challenge ptype onSubmit onClose s)
   = fst (handleSubmit_start clock challenge ptype s)"
  by (simp add: handleSubmit_def split: prod.splits sum.splits)

lemma handleSubmit_accepted:
  assumes "fst (handleSubmit_start clock challenge ptype s) = Inr r"
  shows "snd (handleSubmit clock challenge ptype onSubmit onClose s)
         = handleSubmit_resume onSubmit onClose r (snd (handleSubmit_start clock challenge ptype s))"
  using assms
  by (cases "handleSubmit_start clock challenge ptype s")
     (auto simp add: handleSubmit_def split: sum.splits)

lemma handleSubmit_resume_Throws:
  assumes "onSubmit r = Throws"
  shows "handleSubmit_resume onSubmit onClose r s =
           s\<lparr>onSubmit_calls := onSubmit_calls s @ [r],
             alerts := alerts s @ [(lit ''Error'',
               lit ''Failed to submit your post. Please try again.'')],
             isSubmitting := False\<rparr>"
  using assms by (simp add: handleSubmit_resume_def Alert_alert_def Let_def)

lemma handleSubmit_resume_idle:
  "isSubmitting (handleSubmit_resume onSubmit onClose r s) = False"
  by (simp add: handleSubmit_resume_def Let_def)

lemmas eval_trim = trim_def trimStart_def trimEnd_def isWhiteSpace_def lit_def

text \<open>
  C1. The builder fails with EmptySubmission exactly when the trimmed text is empty
  and there is no image reference, where the code counts \<^verbatim>\<open>null\<close> and the empty
  string as no reference; in every other case it produces a record, and a draft with
  an image reference and blank text yields a record with empty text and that
  reference.
\<close>

theorem builder_rejects_iff_empty:
  "(fst (handleSubmit clock challenge ptype onSubmit onClose s) = Inl EmptySubmission
      \<longleftrightarrow> trim (draft_text s) = [] \<and> (selectedImage s = None \<or> selectedImage s = Some []))
   \<and> (\<not> (trim (draft_text s) = [] \<and> (selectedImage s = None \<or> selectedImage s = Some []))
        \<longrightarrow> (\<exists>r. fst (handleSubmit clock challenge ptype onSubmit onClose s) = Inr r))
   \<and> (trim (draft_text s) = [] \<and> selectedImage s = Some uri \<and> uri \<noteq> []
        \<longrightarrow> (\<exists>r. fst (handleSubmit clock challenge ptype onSubmit onClose s) = Inr r
                 \<and> sub_text r = [] \<and> sub_image r = Some uri))"
proof (cases "trim (draft_text s) = [] \<and> (selectedImage s = None \<or> selectedImage s = Some [])")
  case True
  then have "fst (handleSubmit clock challenge ptype onSubmit onClose s) = Inl EmptySubmission"
    by (simp add: handleSubmit_fst handleSubmit_start_rejected)
  with True show ?thesis by auto
next
  case False
  note acc = handleSubmit_start_accepted [OF False, of clock challenge ptype]
  have "\<exists>r. fst (handleSubmit clock challenge ptype onSubmit onClose s) = Inr r"
    by (simp add: handleSubmit_fst acc)
  moreover have "fst (handleSubmit clock challenge ptype onSubmit onClose s) \<noteq> Inl EmptySubmission"
    by (simp add: handleSubmit_fst acc)
  moreover have "trim (draft_text s) = [] \<and> selectedImage s = Some uri \<and> uri \<noteq> []
        \<longrightarrow> (\<exists>r. fst (handleSubmit clock challenge ptype onSubmit onClose s) = Inr r
                 \<and> sub_text r = [] \<and> sub_image r = Some uri)"
    by (simp add: handleSubmit_fst acc)
  ultimately show ?thesis using False by blast
qed

theorem builder_rejects_iff_empty_witness:
  "trim (draft_text photo_draft) = [] \<and> selectedImage photo_draft = Some (lit ''file:///p.jpg'')
   \<and> lit ''file:///p.jpg'' \<noteq> []
   \<and> (\<exists>r. fst (handleSubmit ticking_clock example_card Individual accepting Returns photo_draft)
              = Inr r
          \<and> sub_text r = [] \<and> sub_image r = Some (lit ''file:///p.jpg''))
   \<and> trim (draft_text blank_draft) = [] \<and> selectedImage blank_draft = None
   \<and> fst (handleSubmit ticking_clock example_card Individual accepting Returns blank_draft)
       = Inl EmptySubmission"
proof -
  have p: "trim (draft_text photo_draft) = [] \<and> selectedImage photo_draft = Some (lit ''file:///p.jpg'')
      \<and> lit ''file:///p.jpg'' \<noteq> []"
    by (simp add: eval_trim photo_draft_def initial_screen_def)
  have b: "trim (draft_text blank_draft) = [] \<and> selectedImage blank_draft = None"
    by (simp add: eval_trim blank_draft_def initial_screen_def)
  from p builder_rejects_iff_empty [of ticking_clock example_card Individual accepting Returns
      photo_draft "lit ''file:///p.jpg''"]
  have "\<exists>r. fst (handleSubmit ticking_clock example_card Individual accepting Returns photo_draft)
              = Inr r
          \<and> sub_text r = [] \<and> sub_image r = Some (lit ''file:///p.jpg'')"
    by blast
  moreover from b builder_rejects_iff_empty [of ticking_clock example_card Individual accepting
      Returns blank_draft]
  have "fst (handleSubmit ticking_clock example_card Individual accepting Returns blank_draft)
       = Inl EmptySubmission"
    by blast
  ultimately show ?thesis using p b by blast
qed

text \<open>
  C5. The record built from an accepted draft has the trimmed text, zero likes,
  comments and shares, the participation mode passed in, the challenge's id, title
  and icon, the fixed placeholder author, the decimal rendering of a reading of the
  wall clock taken for it as identifier and a second such reading as timestamp.
\<close>

theorem built_record_fields:
  assumes "fst (handleSubmit clock challenge ptype onSubmit onClose s) = Inr r"
  shows "sub_text r = trim (draft_text s)
     \<and> likes r = 0 \<and> comments r = 0 \<and> shares r = 0
     \<and> participationType r = ptype
     \<and> challengeId r = card_id challenge
     \<and> challengeTitle r = card_title challenge
     \<and> challengeIcon r = card_image challenge
     \<and> sub_id r = Number_toString (clock (clock_reads s))
     \<and> timestamp r = clock (Suc (clock_reads s))
     \<and> clock_reads (snd (handleSubmit_start clock challenge ptype s)) = clock_reads s + 2
     \<and> author r = \<lparr> author_name = lit ''You'',
          author_avatar = lit ''https://images.unsplash.com/photo-1472099645785-5658abf4ff4e?w=100&h=100&fit=crop&crop=face'',
          author_username = lit ''@you'' \<rparr>"
proof (cases "trim (draft_text s) = [] \<and> (selectedImage s = None \<or> selectedImage s = Some [])")
  case True
  then have "fst (handleSubmit clock challenge ptype onSubmit onClose s) = Inl EmptySubmission"
    by (simp add: handleSubmit_fst handleSubmit_start_rejected)
  with assms show ?thesis by simp
next
  case False
  note acc = handleSubmit_start_accepted [OF False, of clock challenge ptype]
  from assms have "r = \<lparr> sub_id = Number_toString (clock (clock_reads s)),
                  challengeId = card_id challenge,
                  challengeTitle = card_title challenge,
                  challengeIcon = card_image challenge,
                  sub_text = trim (draft_text s),
                  sub_image = (if selectedImage s = Some [] then None else selectedImage s),
                  timestamp = clock (Suc (clock_reads s)),
                  author = placeholder_author,
                  likes = 0, comments = 0, shares = 0,
                  participationType = ptype \<rparr>"
    by (simp add: handleSubmit_fst acc)
  then show ?thesis
    by (simp add: acc placeholder_author_def)
qed

theorem built_record_fields_witness:
  "\<exists>r. fst (handleSubmit ticking_clock example_card Team accepting Returns text_draft) = Inr r
     \<and> sub_text r = lit ''so calm'' \<and> likes r = 0 \<and> comments r = 0 \<and> shares r = 0
     \<and> participationType r = Team \<and> challengeId r = 7
     \<and> challengeTitle r = lit ''Morning Meditation Challenge''
     \<and> sub_id r = lit ''1700000000000'' \<and> timestamp r = 1700000000007"
proof -
  have t: "trim (draft_text text_draft) = lit ''so calm''"
    by (simp add: eval_trim text_draft_def initial_screen_def)
  then have "\<not> (trim (draft_text text_draft) = []
      \<and> (selectedImage text_draft = None \<or> selectedImage text_draft = Some []))"
    by (simp add: lit_def)
  then obtain r where
    r: "fst (handleSubmit ticking_clock example_card Team accepting Returns text_draft) = Inr r"
    by (simp add: handleSubmit_fst handleSubmit_start_accepted)
  have c: "clock_reads text_draft = 0"
    by (simp add: text_draft_def initial_screen_def)
  have n: "Number_toString (ticking_clock 0) = lit ''1700000000000''"
    by (simp add: ticking_clock_def Number_toString_def nat_digits.simps digit_char_def lit_def)
  have m: "ticking_clock (Suc 0) = 1700000000007"
    by (simp add: ticking_clock_def)
  from built_record_fields [OF r] t c n m
  have "sub_text r = lit ''so calm'' \<and> likes r = 0 \<and> comments r = 0 \<and> shares r = 0
     \<and> participationType r = Team \<and> challengeId r = 7
     \<and> challengeTitle r = lit ''Morning Meditation Challenge''
     \<and> sub_id r = lit ''1700000000000'' \<and> timestamp r = 1700000000007"
    by (simp add: example_card_def)
  with r show ?thesis by blast
qed

text \<open>
  C6. A draft rejected as EmptySubmission changes nothing but the list of alerts:
  the wall clock is not read, so no identifier and no timestamp exist, neither
  \<^verbatim>\<open>onSubmit\<close> nor \<^verbatim>\<open>onClose\<close> is called, \<^verbatim>\<open>isSubmitting\<close> keeps its value and the
  draft is unchanged.
\<close>

theorem rejected_draft_no_effects:
  assumes "fst (handleSubmit clock challenge ptype onSubmit onClose s) = Inl e"
  shows "snd (handleSubmit clock challenge ptype onSubmit onClose s)
           = s\<lparr>alerts := alerts s @ [(lit ''Empty post'',
                 lit ''Please add some text or an image to share your moment.'')]\<rparr>
     \<and> clock_reads (snd (handleSubmit clock challenge ptype onSubmit onClose s)) = clock_reads s
     \<and> onSubmit_calls (snd (handleSubmit clock challenge ptype onSubmit onClose s))
         = onSubmit_calls s
     \<and> onClose_calls (snd (handleSubmit clock challenge ptype onSubmit onClose s))
         = onClose_calls s
     \<and> isSubmitting (snd (handleSubmit clock challenge ptype onSubmit onClose s))
         = isSubmitting s
     \<and> draft_text (snd (handleSubmit clock challenge ptype onSubmit onClose s)) = draft_text s
     \<and> selectedImage (snd (handleSubmit clock challenge ptype onSubmit onClose s))
         = selectedImage s"
proof (cases "trim (draft_text s) = [] \<and> (selectedImage s = None \<or> selectedImage s = Some [])")
  case True
  then have st: "handleSubmit_start clock challenge ptype s =
           (Inl EmptySubmission,
            s\<lparr>alerts := alerts s @ [(lit ''Empty post'',
                 lit ''Please add some text or an image to share your moment.'')]\<rparr>)"
    by (simp add: handleSubmit_start_rejected)
  then have "snd (handleSubmit clock challenge ptype onSubmit onClose s)
           = s\<lparr>alerts := alerts s @ [(lit ''Empty post'',
                 lit ''Please add some text or an image to share your moment.'')]\<rparr>"
    by (simp add: handleSubmit_def)
  then show ?thesis by simp
next
  case False
  then have "\<exists>r. fst (handleSubmit clock challenge ptype onSubmit onClose s) = Inr r"
    by (simp add: handleSubmit_fst handleSubmit_start_accepted)
  with assms show ?thesis by auto
qed

theorem rejected_draft_no_effects_witness:
  "fst (handleSubmit ticking_clock example_card Individual accepting Returns blank_draft)
     = Inl EmptySubmission
   \<and> clock_reads (snd (handleSubmit ticking_clock example_card Individual accepting Returns
        blank_draft)) = 0
   \<and> onSubmit_calls (snd (handleSubmit ticking_clock example_card Individual accepting Returns
        blank_draft)) = []
   \<and> isSubmitting (snd (handleSubmit ticking_clock example_card Individual accepting Returns
        blank_draft)) = False
   \<and> draft_text (snd (handleSubmit ticking_clock example_card Individual accepting Returns
        blank_draft)) = lit ''   ''"
proof -
  have "trim (draft_text blank_draft) = [] \<and> selectedImage blank_draft = None"
    by (simp add: eval_trim blank_draft_def initial_screen_def)
  then have rej:
    "fst (handleSubmit ticking_clock example_card Individual accepting Returns blank_draft)
     = Inl EmptySubmission"
    by (simp add: handleSubmit_fst handleSubmit_start_rejected)
  from rejected_draft_no_effects [OF rej] rej show ?thesis
    by (simp add: blank_draft_def initial_screen_def)
qed

text \<open>
  C7 as stated fails for a collaborator that reports its failure through the promise
  it returns: the call is not awaited, so the screen shows the success alert and
  calls \<^verbatim>\<open>onClose\<close>, and no failure alert appears.
\<close>

theorem rejected_promise_is_not_noticed:
  "\<exists>r. fst (handleSubmit ticking_clock example_card Individual rejecting Returns text_draft)
          = Inr r
     \<and> rejecting r = Rejects
     \<and> alerts (snd (handleSubmit ticking_clock example_card Individual rejecting Returns
          text_draft))
        = [(lit ''Success!'', lit ''Your moment has been shared with the community! '' @ [0x2728])]
     \<and> onClose_calls (snd (handleSubmit ticking_clock example_card Individual rejecting Returns
          text_draft)) = 1"
proof -
  have "trim (draft_text text_draft) = lit ''so calm''"
    by (simp add: eval_trim text_draft_def initial_screen_def)
  then have "\<not> (trim (draft_text text_draft) = []
      \<and> (selectedImage text_draft = None \<or> selectedImage text_draft = Some []))"
    by (simp add: lit_def)
  note acc = handleSubmit_start_accepted [OF this, of ticking_clock example_card Individual]
  then obtain r where
    st: "fst (handleSubmit_start ticking_clock example_card Individual text_draft) = Inr r"
    by simp
  have rj: "rejecting r = Rejects" by (simp add: rejecting_def)
  have "snd (handleSubmit ticking_clock example_card Individual rejecting Returns text_draft)
      = handleSubmit_resume rejecting Returns r
          (text_draft\<lparr>isSubmitting := True, clock_reads := Suc (Suc (clock_reads text_draft))\<rparr>)"
    by (simp add: handleSubmit_accepted [OF st] acc)
  then have "alerts (snd (handleSubmit ticking_clock example_card Individual rejecting Returns
          text_draft))
        = [(lit ''Success!'', lit ''Your moment has been shared with the community! '' @ [0x2728])]
     \<and> onClose_calls (snd (handleSubmit ticking_clock example_card Individual rejecting Returns
          text_draft)) = 1"
    by (simp add: handleSubmit_resume_def Alert_alert_def Let_def rj text_draft_def
        initial_screen_def)
  with st rj show ?thesis
    by (simp add: handleSubmit_fst)
qed

text \<open>
  C7, as amended. When the call of \<^verbatim>\<open>onSubmit\<close> throws, the resumed invocation leaves
  the screen idle, leaves the text and the selected image as they are, shows the
  failure alert and does not call \<^verbatim>\<open>onClose\<close>. This holds from whatever state the
  screen is in when the timer fires, and so for an invocation run from the press to
  its end.
\<close>

theorem acceptance_failure_reverts_to_idle:
  "(onSubmit r = Throws \<longrightarrow>
      \<not> isSubmitting (handleSubmit_resume onSubmit onClose r s)
      \<and> draft_text (handleSubmit_resume onSubmit onClose r s) = draft_text s
      \<and> selectedImage (handleSubmit_resume onSubmit onClose r s) = selectedImage s
      \<and> alerts (handleSubmit_resume onSubmit onClose r s)
          = alerts s @ [(lit ''Error'', lit ''Failed to submit your post. Please try again.'')]
      \<and> onClose_calls (handleSubmit_resume onSubmit onClose r s) = onClose_calls s)
   \<and> (fst (handleSubmit clock challenge ptype onSubmit onClose s) = Inr r
        \<and> onSubmit r = Throws \<longrightarrow>
      \<not> isSubmitting (snd (handleSubmit clock challenge ptype onSubmit onClose s))
      \<and> draft_text (snd (handleSubmit clock challenge ptype onSubmit onClose s)) = draft_text s
      \<and> selectedImage (snd (handleSubmit clock challenge ptype onSubmit onClose s))
          = selectedImage s
      \<and> alerts (snd (handleSubmit clock challenge ptype onSubmit onClose s))
          = alerts s @ [(lit ''Error'', lit ''Failed to submit your post. Please try again.'')]
      \<and> onClose_calls (snd (handleSubmit clock challenge ptype onSubmit onClose s))
          = onClose_calls s)"
proof (rule conjI)
  show "onSubmit r = Throws \<longrightarrow>
      \<not> isSubmitting (handleSubmit_resume onSubmit onClose r s)
      \<and> draft_text (handleSubmit_resume onSubmit onClose r s) = draft_text s
      \<and> selectedImage (handleSubmit_resume onSubmit onClose r s) = selectedImage s
      \<and> alerts (handleSubmit_resume onSubmit onClose r s)
          = alerts s @ [(lit ''Error'', lit ''Failed to submit your post. Please try again.'')]
      \<and> onClose_calls (handleSubmit_resume onSubmit onClose r s) = onClose_calls s"
    by (simp add: handleSubmit_resume_Throws)
next
  show "fst (handleSubmit clock challenge ptype onSubmit onClose s) = Inr r
        \<and> onSubmit r = Throws \<longrightarrow>
      \<not> isSubmitting (snd (handleSubmit clock challenge ptype onSubmit onClose s))
      \<and> draft_text (snd (handleSubmit clock challenge ptype onSubmit onClose s)) = draft_text s
      \<and> selectedImage (snd (handleSubmit clock challenge ptype onSubmit onClose s))
          = selectedImage s
      \<and> alerts (snd (handleSubmit clock challenge ptype onSubmit onClose s))
          = alerts s @ [(lit ''Error'', lit ''Failed to submit your post. Please try again.'')]
      \<and> onClose_calls (snd (handleSubmit clock challenge ptype onSubmit onClose s))
          = onClose_calls s"
  proof (rule impI)
    assume a: "fst (handleSubmit clock challenge ptype onSubmit onClose s) = Inr r
        \<and> onSubmit r = Throws"
    then have st: "fst (handleSubmit_start clock challenge ptype s) = Inr r"
      by (simp add: handleSubmit_fst)
    have "\<not> (trim (draft_text s) = [] \<and> (selectedImage s = None \<or> selectedImage s = Some []))"
    proof
      assume "trim (draft_text s) = [] \<and> (selectedImage s = None \<or> selectedImage s = Some [])"
      then have "fst (handleSubmit_start clock challenge ptype s) = Inl EmptySubmission"
        by (simp add: handleSubmit_start_rejected)
      with st show False by simp
    qed
    note acc = handleSubmit_start_accepted [OF this, of clock challenge ptype]
    from a show "\<not> isSubmitting (snd (handleSubmit clock challenge ptype onSubmit onClose s))
      \<and> draft_text (snd (handleSubmit clock challenge ptype onSubmit onClose s)) = draft_text s
      \<and> selectedImage (snd (handleSubmit clock challenge ptype onSubmit onClose s))
          = selectedImage s
      \<and> alerts (snd (handleSubmit clock challenge ptype onSubmit onClose s))
          = alerts s @ [(lit ''Error'', lit ''Failed to submit your post. Please try again.'')]
      \<and> onClose_calls (snd (handleSubmit clock challenge ptype onSubmit onClose s))
          = onClose_calls s"
      by (simp add: handleSubmit_accepted [OF st] handleSubmit_resume_Throws acc)
  qed
qed

theorem acceptance_failure_reverts_to_idle_witness:
  "\<exists>r. fst (handleSubmit ticking_clock example_card Individual failing Returns text_draft) = Inr r
     \<and> failing r = Throws
     \<and> \<not> isSubmitting (snd (handleSubmit ticking_clock example_card Individual failing Returns
           text_draft))
     \<and> draft_text (snd (handleSubmit ticking_clock example_card Individual failing Returns
           text_draft)) = lit ''  so calm  ''
     \<and> selectedImage (snd (handleSubmit ticking_clock example_card Individual failing Returns
           text_draft)) = None
     \<and> alerts (snd (handleSubmit ticking_clock example_card Individual failing Returns
           text_draft))
         = [(lit ''Error'', lit ''Failed to submit your post. Please try again.'')]
     \<and> onClose_calls (snd (handleSubmit ticking_clock example_card Individual failing Returns
           text_draft)) = 0"
proof -
  have "trim (draft_text text_draft) = lit ''so calm''"
    by (simp add: eval_trim text_draft_def initial_screen_def)
  then have "\<not> (trim (draft_text text_draft) = []
      \<and> (selectedImage text_draft = None \<or> selectedImage text_draft = Some []))"
    by (simp add: lit_def)
  then obtain r where
    r: "fst (handleSubmit ticking_clock example_card Individual failing Returns text_draft)
          = Inr r"
    by (simp add: handleSubmit_fst handleSubmit_start_accepted)
  have f: "failing r = Throws" by (simp add: failing_def)
  from acceptance_failure_reverts_to_idle [of failing r Returns text_draft ticking_clock
      example_card Individual] r f
  have "\<not> isSubmitting (snd (handleSubmit ticking_clock example_card Individual failing Returns
           text_draft))
     \<and> draft_text (snd (handleSubmit ticking_clock example_card Individual failing Returns
           text_draft)) = draft_text text_draft
     \<and> selectedImage (snd (handleSubmit ticking_clock example_card Individual failing Returns
           text_draft)) = selectedImage text_draft
     \<and> alerts (snd (handleSubmit ticking_clock example_card Individual failing Returns
           text_draft))
         = alerts text_draft @ [(lit ''Error'', lit ''Failed to submit your post. Please try again.'')]
     \<and> onClose_calls (snd (handleSubmit ticking_clock example_card Individual failing Returns
           text_draft)) = onClose_calls text_draft"
    by blast
  then have "\<not> isSubmitting (snd (handleSubmit ticking_clock example_card Individual failing Returns
           text_draft))
     \<and> draft_text (snd (handleSubmit ticking_clock example_card Individual failing Returns
           text_draft)) = lit ''  so calm  ''
     \<and> selectedImage (snd (handleSubmit ticking_clock example_card Individual failing Returns
           text_draft)) = None
     \<and> alerts (snd (handleSubmit ticking_clock example_card Individual failing Returns
           text_draft))
         = [(lit ''Error'', lit ''Failed to submit your post. Please try again.'')]
     \<and> onClose_calls (snd (handleSubmit ticking_clock example_card Individual failing Returns
           text_draft)) = 0"
    by (simp add: text_draft_def initial_screen_def)
  with r f show ?thesis by blast
qed

text \<open>
  C10. An image reference that is the empty string counts as no image: with blank
  text the draft is rejected as EmptySubmission, the result is in every case the one
  for \<^verbatim>\<open>null\<close>, and no record carries the empty string as its image; a record
  built from such a draft has no image.
\<close>

theorem empty_image_reference_is_absent:
  "(trim (draft_text s) = [] \<and> selectedImage s = Some []
      \<longrightarrow> fst (handleSubmit clock challenge ptype onSubmit onClose s) = Inl EmptySubmission)
   \<and> fst (handleSubmit clock challenge ptype onSubmit onClose (s\<lparr>selectedImage := Some []\<rparr>))
       = fst (handleSubmit clock challenge ptype onSubmit onClose (s\<lparr>selectedImage := None\<rparr>))
   \<and> (fst (handleSubmit clock challenge ptype onSubmit onClose s) = Inr r
        \<longrightarrow> sub_image r \<noteq> Some [])
   \<and> (selectedImage s = Some [] \<and> fst (handleSubmit clock challenge ptype onSubmit onClose s) = Inr r
        \<longrightarrow> sub_image r = None)"
proof -
  have same: "fst (handleSubmit_start clock challenge ptype (s\<lparr>selectedImage := Some []\<rparr>))
       = fst (handleSubmit_start clock challenge ptype (s\<lparr>selectedImage := None\<rparr>))"
    by (simp add: handleSubmit_start_def truthy_def Let_def Date_now_def)
  have img: "fst (handleSubmit_start clock challenge ptype s) = Inr r
      \<Longrightarrow> sub_image r = (if selectedImage s = Some [] then None else selectedImage s)"
  proof (cases "trim (draft_text s) = [] \<and> (selectedImage s = None \<or> selectedImage s = Some [])")
    case True
    assume "fst (handleSubmit_start clock challenge ptype s) = Inr r"
    with True show ?thesis by (simp add: handleSubmit_start_rejected)
  next
    case False
    assume "fst (handleSubmit_start clock challenge ptype s) = Inr r"
    with False show ?thesis by (auto simp add: handleSubmit_start_accepted)
  qed
  show ?thesis
  proof (intro conjI impI)
    assume "trim (draft_text s) = [] \<and> selectedImage s = Some []"
    then show "fst (handleSubmit clock challenge ptype onSubmit onClose s) = Inl EmptySubmission"
      by (simp add: handleSubmit_fst handleSubmit_start_rejected)
  next
    show "fst (handleSubmit clock challenge ptype onSubmit onClose (s\<lparr>selectedImage := Some []\<rparr>))
       = fst (handleSubmit clock challenge ptype onSubmit onClose (s\<lparr>selectedImage := None\<rparr>))"
      by (simp only: handleSubmit_fst same)
  next
    assume "fst (handleSubmit clock challenge ptype onSubmit onClose s) = Inr r"
    then have "sub_image r = (if selectedImage s = Some [] then None else selectedImage s)"
      by (simp add: handleSubmit_fst img)
    then show "sub_image r \<noteq> Some []" by (simp split: if_splits)
  next
    assume "selectedImage s = Some []
      \<and> fst (handleSubmit clock challenge ptype onSubmit onClose s) = Inr r"
    then show "sub_image r = None"
      by (simp add: handleSubmit_fst img)
  qed
qed

theorem empty_image_reference_is_absent_witness:
  "\<exists>r. selectedImage empty_uri_draft = Some []
     \<and> fst (handleSubmit ticking_clock example_card Individual accepting Returns empty_uri_draft)
         = Inr r
     \<and> sub_text r = lit ''hi'' \<and> sub_image r = None
     \<and> trim (draft_text (blank_draft\<lparr>selectedImage := Some []\<rparr>)) = []
     \<and> fst (handleSubmit ticking_clock example_card Individual accepting Returns
          (blank_draft\<lparr>selectedImage := Some []\<rparr>)) = Inl EmptySubmission"
proof -
  have e: "selectedImage empty_uri_draft = Some []"
    by (simp add: empty_uri_draft_def initial_screen_def)
  have t: "trim (draft_text empty_uri_draft) = lit ''hi''"
    by (simp add: eval_trim empty_uri_draft_def initial_screen_def)
  then have "\<not> (trim (draft_text empty_uri_draft) = []
      \<and> (selectedImage empty_uri_draft = None \<or> selectedImage empty_uri_draft = Some []))"
    by (simp add: lit_def)
  note acc = handleSubmit_start_accepted [OF this, of ticking_clock example_card Individual]
  then obtain r where
    r: "fst (handleSubmit ticking_clock example_card Individual accepting Returns empty_uri_draft)
          = Inr r" and tx: "sub_text r = lit ''hi''"
    by (simp add: handleSubmit_fst t)
  from empty_image_reference_is_absent [of empty_uri_draft ticking_clock example_card Individual
      accepting Returns r] e r
  have i: "sub_image r = None" by blast
  have b: "trim (draft_text (blank_draft\<lparr>selectedImage := Some []\<rparr>)) = []
      \<and> selectedImage (blank_draft\<lparr>selectedImage := Some []\<rparr>) = Some []"
    by (simp add: eval_trim blank_draft_def initial_screen_def)
  from empty_image_reference_is_absent [of "blank_draft\<lparr>selectedImage := Some []\<rparr>"
      ticking_clock example_card Individual accepting Returns] b
  have "fst (handleSubmit ticking_clock example_card Individual accepting Returns
          (blank_draft\<lparr>selectedImage := Some []\<rparr>)) = Inl EmptySubmission"
    by blast
  with e r tx i b show ?thesis by blast
qed

section \<open>Identifiers\<close>

lemma digit_char_unat: "d < 10 \<Longrightarrow> unat (digit_char d) = 48 + d"
  by (simp add: digit_char_def unat_word_ariths unat_of_nat)

lemma digit_char_inj:
  assumes "d < 10" and "e < 10" and "digit_char d = digit_char e"
  shows "d = e"
proof -
  have "unat (digit_char d) = unat (digit_char e)"
    by (simp only: assms(3))
  then have "48 + d = 48 + e"
    by (simp only: digit_char_unat [OF assms(1)] digit_char_unat [OF assms(2)])
  then show ?thesis by (rule add_left_imp_eq)
qed

lemma digit_char_not_minus:
  assumes "d < 10"
  shows "digit_char d \<noteq> 0x2D"
proof
  assume "digit_char d = 0x2D"
  then have "unat (digit_char d) = unat (0x2D :: jschar)" by (rule arg_cong)
  then have "48 + d = 45"
    by (simp add: digit_char_unat [OF assms])
  then show False by simp
qed

lemma nat_digits_not_Nil: "nat_digits n \<noteq> []"
  by (subst nat_digits.simps) simp

lemma nat_digits_no_minus: "0x2D \<notin> set (nat_digits n)"
proof (induction n rule: nat_digits.induct)
  case (1 n)
  show ?case
  proof (cases "n < 10")
    case True
    then show ?thesis
      using digit_char_not_minus [of n] by (subst nat_digits.simps) auto
  next
    case False
    have "n mod 10 < 10" by simp
    then have "digit_char (n mod 10) \<noteq> 0x2D" by (rule digit_char_not_minus)
    with False "1.IH" show ?thesis
      by (subst nat_digits.simps) auto
  qed
qed

lemma nat_digits_inj: "nat_digits m = nat_digits n \<Longrightarrow> m = n"
proof (induction m arbitrary: n rule: nat_digits.induct)
  case (1 m)
  show ?case
  proof (cases "m < 10")
    case m: True
    show ?thesis
    proof (cases "n < 10")
      case True
      with m "1.prems" show ?thesis
        by (simp add: nat_digits.simps [of m] nat_digits.simps [of n] digit_char_inj)
    next
      case False
      with m "1.prems" nat_digits_not_Nil [of "n div 10"] show ?thesis
        by (simp add: nat_digits.simps [of m] nat_digits.simps [of n])
    qed
  next
    case m: False
    show ?thesis
    proof (cases "n < 10")
      case True
      with m "1.prems" nat_digits_not_Nil [of "m div 10"] show ?thesis
        by (simp add: nat_digits.simps [of m] nat_digits.simps [of n])
    next
      case False
      with m "1.prems" have eq: "nat_digits (m div 10) = nat_digits (n div 10)"
        and d: "digit_char (m mod 10) = digit_char (n mod 10)"
        by (simp_all add: nat_digits.simps [of m] nat_digits.simps [of n])
      from "1.IH" [OF m eq] have "m div 10 = n div 10" .
      moreover from d have "m mod 10 = n mod 10"
        by (intro digit_char_inj) simp_all
      ultimately show ?thesis
        by (metis div_mult_mod_eq)
    qed
  qed
qed

lemma Number_toString_sign:
  assumes "a < 0" and "\<not> b < 0"
  shows "Number_toString a \<noteq> Number_toString b"
proof
  assume "Number_toString a = Number_toString b"
  with assms have "0x2D # nat_digits (nat (- a)) = nat_digits (nat b)"
    by (simp add: Number_toString_def)
  then have "0x2D \<in> set (nat_digits (nat b))"
    by (metis list.set_intros(1))
  then show False using nat_digits_no_minus by blast
qed

lemma Number_toString_inj:
  assumes eq: "Number_toString i = Number_toString j"
  shows "i = j"
proof (cases "i < 0")
  case i: True
  show ?thesis
  proof (cases "j < 0")
    case True
    with i eq have "nat (- i) = nat (- j)"
      by (simp add: Number_toString_def nat_digits_inj)
    with i True show ?thesis by simp
  next
    case False
    with i eq Number_toString_sign show ?thesis by blast
  qed
next
  case i: False
  show ?thesis
  proof (cases "j < 0")
    case True
    with i eq Number_toString_sign [of j i] show ?thesis by simp
  next
    case False
    with i eq have "nat i = nat j"
      by (simp add: Number_toString_def nat_digits_inj)
    with i False show ?thesis by simp
  qed
qed

lemma built_id:
  assumes "fst (handleSubmit clock challenge ptype onSubmit onClose s) = Inr r"
  shows "sub_id r = Number_toString (clock (clock_reads s))"
proof (cases "trim (draft_text s) = [] \<and> (selectedImage s = None \<or> selectedImage s = Some [])")
  case True
  with assms show ?thesis
    by (simp add: handleSubmit_fst handleSubmit_start_rejected)
next
  case False
  with assms show ?thesis
    by (auto simp add: handleSubmit_fst handleSubmit_start_accepted)
qed

lemma built_text:
  assumes "fst (handleSubmit clock challenge ptype onSubmit onClose s) = Inr r"
  shows "sub_text r = trim (draft_text s)"
proof (cases "trim (draft_text s) = [] \<and> (selectedImage s = None \<or> selectedImage s = Some [])")
  case True
  with assms show ?thesis
    by (simp add: handleSubmit_fst handleSubmit_start_rejected)
next
  case False
  with assms show ?thesis
    by (auto simp add: handleSubmit_fst handleSubmit_start_accepted)
qed

text \<open>
  C9 as stated fails. After a failed attempt the user edits the text and submits
  again; the wall clock returns the same millisecond for both attempts, and the two
  different records carry the same identifier.
\<close>

theorem identifiers_collide_on_equal_readings:
  "\<exists>a b. fst (handleSubmit stalled_clock example_card Individual failing Returns text_draft) = Inr a
     \<and> fst (handleSubmit stalled_clock example_card Individual accepting Returns
          ((snd (handleSubmit stalled_clock example_card Individual failing Returns text_draft))
             \<lparr>draft_text := lit ''calmer now''\<rparr>)) = Inr b
     \<and> sub_text a \<noteq> sub_text b \<and> sub_id a = sub_id b"
proof -
  let ?s2 = "(snd (handleSubmit stalled_clock example_card Individual failing Returns text_draft))
             \<lparr>draft_text := lit ''calmer now''\<rparr>"
  have t1: "trim (draft_text text_draft) = lit ''so calm''"
    by (simp add: eval_trim text_draft_def initial_screen_def)
  then have "\<not> (trim (draft_text text_draft) = []
      \<and> (selectedImage text_draft = None \<or> selectedImage text_draft = Some []))"
    by (simp add: lit_def)
  note acc1 = handleSubmit_start_accepted [OF this, of stalled_clock example_card Individual]
  then obtain a where
    a: "fst (handleSubmit stalled_clock example_card Individual failing Returns text_draft) = Inr a"
    by (simp add: handleSubmit_fst)
  have ta: "sub_text a = lit ''so calm''"
    by (simp only: built_text [OF a] t1)
  have t2: "trim (draft_text ?s2) = lit ''calmer now''"
    by (simp add: eval_trim)
  then have "\<not> (trim (draft_text ?s2) = []
      \<and> (selectedImage ?s2 = None \<or> selectedImage ?s2 = Some []))"
    by (simp add: lit_def)
  note acc2 = handleSubmit_start_accepted [OF this, of stalled_clock example_card Individual]
  then obtain b where
    b: "fst (handleSubmit stalled_clock example_card Individual accepting Returns ?s2) = Inr b"
    by (simp add: handleSubmit_fst)
  have tb: "sub_text b = lit ''calmer now''"
    by (simp only: built_text [OF b] t2)
  from ta tb have "sub_text a \<noteq> sub_text b" by (simp add: lit_def)
  moreover have "sub_id a = sub_id b"
    by (simp add: built_id [OF a] built_id [OF b] stalled_clock_def)
  ultimately show ?thesis using a b by blast
qed

text \<open>
  C9, as amended. The identifier is the decimal rendering of the wall-clock reading
  taken for the submission, and it is the only source of the identifier: two
  submissions of one process have different identifiers exactly when those two
  readings differ.
\<close>

theorem identifiers_distinct_iff_readings_differ:
  assumes "fst (handleSubmit clock challenge ptype onSubmit onClose s) = Inr a"
    and "fst (handleSubmit clock challenge' ptype' onSubmit' onClose' s') = Inr b"
  shows "sub_id a \<noteq> sub_id b \<longleftrightarrow> clock (clock_reads s) \<noteq> clock (clock_reads s')"
proof -
  have "sub_id a = Number_toString (clock (clock_reads s))"
    using assms(1) by (rule built_id)
  moreover have "sub_id b = Number_toString (clock (clock_reads s'))"
    using assms(2) by (rule built_id)
  ultimately show ?thesis
    using Number_toString_inj by auto
qed

theorem identifiers_distinct_iff_readings_differ_witness:
  "\<exists>a b. fst (handleSubmit ticking_clock example_card Individual failing Returns text_draft) = Inr a
     \<and> fst (handleSubmit ticking_clock example_card Individual accepting Returns
          (snd (handleSubmit ticking_clock example_card Individual failing Returns text_draft)))
        = Inr b
     \<and> sub_id a \<noteq> sub_id b"
proof -
  let ?s2 = "snd (handleSubmit ticking_clock example_card Individual failing Returns text_draft)"
  have t1: "trim (draft_text text_draft) = lit ''so calm''"
    by (simp add: eval_trim text_draft_def initial_screen_def)
  then have n1: "\<not> (trim (draft_text text_draft) = []
      \<and> (selectedImage text_draft = None \<or> selectedImage text_draft = Some []))"
    by (simp add: lit_def)
  note acc1 = handleSubmit_start_accepted [OF n1, of ticking_clock example_card Individual]
  then obtain a where
    a: "fst (handleSubmit ticking_clock example_card Individual failing Returns text_draft) = Inr a"
    by (simp add: handleSubmit_fst)
  then have st: "fst (handleSubmit_start ticking_clock example_card Individual text_draft) = Inr a"
    by (simp add: handleSubmit_fst)
  have s2: "?s2 = handleSubmit_resume failing Returns a
      (text_draft\<lparr>isSubmitting := True, clock_reads := Suc (Suc (clock_reads text_draft))\<rparr>)"
    by (simp add: handleSubmit_accepted [OF st] acc1)
  have f: "failing a = Throws" by (simp add: failing_def)
  note r2 = s2 [unfolded handleSubmit_resume_Throws [of failing a Returns, OF f]]
  have d2: "draft_text ?s2 = draft_text text_draft \<and> selectedImage ?s2 = selectedImage text_draft
      \<and> clock_reads ?s2 = 2"
    by (simp only: r2) (simp add: text_draft_def initial_screen_def)
  with n1 have "\<not> (trim (draft_text ?s2) = []
      \<and> (selectedImage ?s2 = None \<or> selectedImage ?s2 = Some []))"
    by simp
  note acc2 = handleSubmit_start_accepted [OF this, of ticking_clock example_card Individual]
  then obtain b where
    b: "fst (handleSubmit ticking_clock example_card Individual accepting Returns ?s2) = Inr b"
    by (simp add: handleSubmit_fst)
  have "clock_reads text_draft = 0"
    by (simp add: text_draft_def initial_screen_def)
  with d2 have "ticking_clock (clock_reads text_draft) \<noteq> ticking_clock (clock_reads ?s2)"
    by (simp add: ticking_clock_def)
  with identifiers_distinct_iff_readings_differ [OF a b] have "sub_id a \<noteq> sub_id b"
    by blast
  with a b show ?thesis by blast
qed

section \<open>One submission in flight\<close>

lemma pickImage_isSubmitting: "isSubmitting (pickImage r s) = isSubmitting s"
  by (cases r) (simp_all add: pickImage_def Alert_alert_def)

lemma takePhoto_isSubmitting: "isSubmitting (takePhoto r s) = isSubmitting s"
  by (cases r) (simp_all add: takePhoto_def Alert_alert_def)

lemma handleSubmit_start_Inl:
  assumes "handleSubmit_start clock challenge ptype s = (Inl e, s')"
  shows "isSubmitting s' = isSubmitting s"
proof (cases "trim (draft_text s) = [] \<and> (selectedImage s = None \<or> selectedImage s = Some [])")
  case True
  with assms show ?thesis by (auto simp add: handleSubmit_start_rejected)
next
  case False
  with assms show ?thesis by (simp add: handleSubmit_start_accepted)
qed

lemma handleSubmit_start_Inr:
  assumes "handleSubmit_start clock challenge ptype s = (Inr r, s')"
  shows "isSubmitting s'"
proof (cases "trim (draft_text s) = [] \<and> (selectedImage s = None \<or> selectedImage s = Some [])")
  case True
  with assms show ?thesis by (simp add: handleSubmit_start_rejected)
next
  case False
  with assms show ?thesis by (auto simp add: handleSubmit_start_accepted)
qed

text \<open>
  C8. In every reachable configuration at most one invocation of \<^verbatim>\<open>handleSubmit\<close>
  is suspended; one is suspended exactly while \<^verbatim>\<open>isSubmitting\<close> holds, and then the
  submit control is disabled, so that no further invocation starts before the
  suspended one has run to its end.
\<close>

theorem one_submission_in_flight:
  assumes "reachable clock challenge ptype (s, pending)"
  shows "length pending \<le> 1 \<and> (pending \<noteq> [] \<longleftrightarrow> isSubmitting s)
     \<and> (pending \<noteq> [] \<longrightarrow> submit_disabled s)"
proof -
  have inv: "length (snd c) \<le> 1 \<and> (snd c \<noteq> [] \<longleftrightarrow> isSubmitting (fst c))"
    if "reachable clock challenge ptype c" for c
    using that
  proof (induction rule: reachable.induct)
    case (Mount n)
    show ?case by (simp add: initial_screen_def)
  next
    case (ChangeText s p t)
    then show ?case by simp
  next
    case (PickImage s p r)
    then show ?case by (simp add: pickImage_isSubmitting)
  next
    case (TakePhoto s p r)
    then show ?case by (simp add: takePhoto_isSubmitting)
  next
    case (RemoveImage s p)
    then show ?case by simp
  next
    case (PressClose s p)
    then show ?case by simp
  next
    case (PressSubmit s p r s')
    from PressSubmit.IH PressSubmit.hyps(2) have idle: "p = []"
      by (simp add: submit_disabled_def)
    show ?case
    proof (cases r)
      case (Inl e)
      with PressSubmit.hyps(3) have "isSubmitting s' = isSubmitting s"
        by (simp add: handleSubmit_start_Inl)
      with Inl PressSubmit.IH show ?thesis by simp
    next
      case (Inr submission)
      with PressSubmit.hyps(3) have "isSubmitting s'"
        by (simp add: handleSubmit_start_Inr)
      with Inr idle show ?thesis by simp
    qed
  next
    case (TimerFires s submission p onSubmit onClose)
    then have "p = []" by simp
    then show ?case by (simp add: handleSubmit_resume_idle)
  qed
  from inv [OF assms] show ?thesis
    by (simp add: submit_disabled_def)
qed

theorem one_submission_in_flight_witness:
  "\<exists>s r. reachable ticking_clock example_card Individual (s, [r])
     \<and> handleSubmit_start ticking_clock example_card Individual text_draft = (Inr r, s)
     \<and> length [r] \<le> 1 \<and> isSubmitting s \<and> submit_disabled s"
proof -
  have t: "trim (draft_text text_draft) = lit ''so calm''"
    by (simp add: eval_trim text_draft_def initial_screen_def)
  then have "\<not> (trim (draft_text text_draft) = []
      \<and> (selectedImage text_draft = None \<or> selectedImage text_draft = Some []))"
    by (simp add: lit_def)
  from handleSubmit_start_accepted [OF this, of ticking_clock example_card Individual]
  obtain r s where st: "handleSubmit_start ticking_clock example_card Individual text_draft = (Inr r, s)"
    by blast
  have "reachable ticking_clock example_card Individual (initial_screen 0, [])"
    by (rule reachable.Mount)
  then have "reachable ticking_clock example_card Individual
      ((initial_screen 0)\<lparr>draft_text := lit ''  so calm  ''\<rparr>, [])"
    by (rule reachable.ChangeText)
  then have typed: "reachable ticking_clock example_card Individual (text_draft, [])"
    by (simp only: text_draft_def)
  have enabled: "\<not> submit_disabled text_draft"
    by (simp add: submit_disabled_def text_draft_def initial_screen_def)
  from reachable.PressSubmit [OF typed enabled st]
  have pressed: "reachable ticking_clock example_card Individual (s, [r])"
    by simp
  from one_submission_in_flight [OF pressed]
  have "length [r] \<le> 1 \<and> isSubmitting s \<and> submit_disabled s"
    by simp
  with pressed st show ?thesis by blast
qed

end
